theory Spec2Isabelle
  imports Complex_Main
begin

section \<open>Browser calls: exceptions and the actions performed\<close>

text \<open>
  Every awaited Playwright call of the bot either returns or throws. The browser is not
  part of the program, so what each call answers is an input of the model: a value of
  \<open>error + 'a\<close>, \<open>Inl\<close> for a thrown exception. A computation yields the list of
  actions it performed on the browser (navigations, clicks, scrolls), in order, and either
  the exception that left it or its value. Timers (\<open>waitForTimeout\<close>, \<open>randomDelay\<close>)
  only suspend the run and are taken not to throw; console output is left out.
\<close>

datatype error = Error string

datatype action =
    Goto string
  | ClickConnectButton
  | EvaluateClickConnectButton
  | ClickMoreButton
  | ClickConnectOption
  | ClickSendButton
  | ClickCardConnectButton
  | ScrollToBottom

type_synonym 'a io = "action list \<times> (error + 'a)"

definition returns :: "'a \<Rightarrow> 'a io" where
  "returns x = ([], Inr x)"

definition throw :: "error \<Rightarrow> 'a io" where
  "throw e = ([], Inl e)"

definition query :: "error + 'a \<Rightarrow> 'a io" where
  "query r = ([], r)"

definition perform :: "action \<Rightarrow> error + 'a \<Rightarrow> 'a io" where
  "perform a r = ([a], r)"

definition io_bind :: "'a io \<Rightarrow> ('a \<Rightarrow> 'b io) \<Rightarrow> 'b io" where
  "io_bind m f =
     (case m of
        (t, Inl e) \<Rightarrow> (t, Inl e)
      | (t, Inr x) \<Rightarrow> (case f x of (t', r) \<Rightarrow> (t @ t', r)))"

definition try_catch :: "'a io \<Rightarrow> (error \<Rightarrow> 'a io) \<Rightarrow> 'a io" where
  "try_catch m h =
     (case m of
        (t, Inl e) \<Rightarrow> (case h e of (t', r) \<Rightarrow> (t @ t', r))
      | (t, Inr x) \<Rightarrow> (t, Inr x))"

text \<open>\<open>String.prototype.includes\<close>: the needle occurs as a contiguous substring.\<close>

fun starts_with :: "string \<Rightarrow> string \<Rightarrow> bool" where
  "starts_with s [] = True"
| "starts_with [] (c # cs) = False"
| "starts_with (x # xs) (c # cs) = (x = c \<and> starts_with xs cs)"

fun str_includes :: "string \<Rightarrow> string \<Rightarrow> bool" where
  "str_includes [] needle = starts_with [] needle"
| "str_includes (x # xs) needle = (starts_with (x # xs) needle \<or> str_includes xs needle)"

section \<open>Action primitives\<close>


section \<open>The dialog resolver\<close>

text \<open>
  What the page answers after a click that may have opened the confirmation dialog:
  \<open>page.$(...)\<close> for the send button throws, finds nothing, or finds a button whose
  \<open>click\<close> throws or succeeds. The two source files differ only in the selector they pass
  (four comma-joined variants against the single "Send without a note").
\<close>

record send_button =
  sb_click :: "error + unit"

record dialog =
  sendButton :: "error + send_button option"

definition handleConnectionDialog :: "dialog \<Rightarrow> bool io" where
  "handleConnectionDialog d =
     try_catch
       (io_bind (query (sendButton d)) (\<lambda>found.
          case found of
            Some b \<Rightarrow> io_bind (perform ClickSendButton (sb_click b)) (\<lambda>_. returns True)
          | None \<Rightarrow> returns False))
       (\<lambda>error. returns False)"

section \<open>The candidate connector (collect-then-connect variant)\<close>

record connect_button =
  cb_details :: "error + unit"
  cb_click :: "error + unit"
  cb_dialog :: dialog
  cb_evaluate_click :: "error + unit"
  cb_evaluate_dialog :: dialog

record connect_option =
  co_click :: "error + unit"
  co_dialog :: dialog

record more_button =
  mb_click :: "error + unit"
  mb_connectOption :: "error + connect_option option"

record profile_page =
  pp_goto :: "error + unit"
  pp_connectButton :: "error + connect_button option"
  pp_moreButton :: "error + more_button option"

record card =
  profileUrl :: "string option"
  degreeText :: "string option"

record browser =
  LINKEDIN_GROUP_URL :: string
  group_goto :: "error + unit"
  memberCards :: "error + card list"
  profile :: "string \<Rightarrow> profile_page"

text \<open>
  The body of the \<open>try\<close> block of \<open>tryConnectWithProfile\<close>. \<open>cb_details\<close> stands
  for the three reads of the button's text and attributes; \<open>cb_dialog\<close> is the dialog
  after the click went through, \<open>cb_evaluate_dialog\<close> the one after the scripted click
  of the \<open>catch (clickError)\<close> branch.
\<close>

definition tryConnect_body :: "profile_page \<Rightarrow> string \<Rightarrow> bool io" where
  "tryConnect_body p url =
     io_bind (perform (Goto url) (pp_goto p)) (\<lambda>_.
     io_bind (query (pp_connectButton p)) (\<lambda>connectButton.
       case connectButton of
         Some cb \<Rightarrow>
           io_bind (query (cb_details cb)) (\<lambda>_.
             try_catch
               (io_bind (perform ClickConnectButton (cb_click cb)) (\<lambda>_.
                  handleConnectionDialog (cb_dialog cb)))
               (\<lambda>clickError.
                  io_bind (perform EvaluateClickConnectButton (cb_evaluate_click cb)) (\<lambda>_.
                    handleConnectionDialog (cb_evaluate_dialog cb))))
       | None \<Rightarrow>
           io_bind (query (pp_moreButton p)) (\<lambda>moreButton.
             case moreButton of
               Some mb \<Rightarrow>
                 io_bind (perform ClickMoreButton (mb_click mb)) (\<lambda>_.
                 io_bind (query (mb_connectOption mb)) (\<lambda>connectOption.
                   case connectOption of
                     Some co \<Rightarrow>
                       io_bind (perform ClickConnectOption (co_click co)) (\<lambda>_.
                         handleConnectionDialog (co_dialog co))
                   | None \<Rightarrow> returns False))
             | None \<Rightarrow> returns False)))"

definition tryConnectWithProfile :: "browser option \<Rightarrow> string \<Rightarrow> bool io" where
  "tryConnectWithProfile page url =
     (case page of
        None \<Rightarrow> throw (Error ''Browser not initialized'')
      | Some b \<Rightarrow> try_catch (tryConnect_body (profile b url) url) (\<lambda>error. returns False))"

text \<open>
  The outcome of one attempt in the words of the data model: the \<open>try\<close> block returned
  \<open>true\<close>, returned \<open>false\<close>, or was left by an exception. The source then folds the
  last two into \<open>false\<close>. This variant has no check of the profile's connection status,
  so it never yields \<open>AlreadyConnectedOrPending\<close>.
\<close>

datatype ConnectionAttemptResult =
    Connected
  | AlreadyConnectedOrPending
  | NoAffordanceFound
  | Failed error

fun attempt_result :: "error + bool \<Rightarrow> ConnectionAttemptResult" where
  "attempt_result (Inr True) = Connected"
| "attempt_result (Inr False) = NoAffordanceFound"
| "attempt_result (Inl e) = Failed e"

section \<open>The listing collector (collect-then-connect variant)\<close>

text \<open>
  One listing entry: both reads carry \<open>.catch(() => null)\<close>, so a card is the pair of
  what they yield. The test \<open>profileUrl && ...\<close> fails on \<open>null\<close> and on the empty
  string; \<open>!degreeText\<close> holds on \<open>null\<close>, \<open>undefined\<close> and the empty string.
  The scroll logic of the loop is commented out and the loop body ends in \<open>break\<close>:
  the cards are read once.
\<close>

definition collect_card :: "string list \<Rightarrow> card \<Rightarrow> string list" where
  "collect_card profileUrls c =
     (case profileUrl c of
        None \<Rightarrow> profileUrls
      | Some u \<Rightarrow>
          if u \<noteq> [] \<and> u \<notin> set profileUrls \<and>
             (case degreeText c of
                None \<Rightarrow> True
              | Some d \<Rightarrow> d = [] \<or> (\<not> str_includes d ''1st'' \<and> \<not> str_includes d ''You''))
          then profileUrls @ [u]
          else profileUrls)"

definition collect_profileUrls :: "browser \<Rightarrow> string list" where
  "collect_profileUrls b =
     (case memberCards b of
        Inl error \<Rightarrow> []
      | Inr cards \<Rightarrow> foldl collect_card [] cards)"

section \<open>The campaign orchestrator (collect-then-connect variant)\<close>

definition MAX_CONNECTIONS_PER_DAY :: nat where
  "MAX_CONNECTIONS_PER_DAY = 25"

text \<open>
  The \<open>for\<close> loop over the collected URLs, with the counter \<open>connectionsAttempted\<close>.
  The cap is the loop's first argument; the source fixes it to the local constant. The
  source logs the final counter, the model returns it.
\<close>

fun process_profiles :: "nat \<Rightarrow> browser \<Rightarrow> string list \<Rightarrow> nat \<Rightarrow> nat io" where
  "process_profiles cap b [] connectionsAttempted = returns connectionsAttempted"
| "process_profiles cap b (url # rest) connectionsAttempted =
     (if connectionsAttempted \<ge> cap then returns connectionsAttempted
      else
        io_bind (try_catch (tryConnectWithProfile (Some b) url) (\<lambda>error. returns False))
          (\<lambda>connected.
             process_profiles cap b rest
               (if connected then connectionsAttempted + 1 else connectionsAttempted)))"

definition connectWithGroupMembers :: "browser option \<Rightarrow> nat io" where
  "connectWithGroupMembers page =
     (case page of
        None \<Rightarrow> throw (Error ''Browser not initialized'')
      | Some b \<Rightarrow>
          io_bind (perform (Goto (LINKEDIN_GROUP_URL b)) (group_goto b)) (\<lambda>_.
            process_profiles MAX_CONNECTIONS_PER_DAY b (collect_profileUrls b) 0))"

section \<open>The interleaved variant (scroll and connect in one loop)\<close>

text \<open>
  In \<open>linkedinBot.ts\<close> every member card is acted upon while the listing is scrolled.
  A card answers the three reads made on it, none of which carries a \<open>.catch\<close>, and
  holds the profile page that a visit would show.
\<close>

record card_connect_button =
  ccb_click :: "error + unit"
  ccb_dialog :: dialog

record dropdown_connect =
  dc_click :: "error + unit"
  dc_dialog :: dialog

record more_dropdown =
  md_click :: "error + unit"
  md_connectInDropdown :: "error + dropdown_connect option"

record visited_profile =
  vp_goto :: "error + unit"
  vp_connectionStatus :: "error + string option"
  vp_moreButton :: "error + more_dropdown option"

record member_card =
  mc_degreeText :: "error + string option"
  mc_directConnectButton :: "error + card_connect_button option"
  mc_profileUrl :: "error + string"
  mc_profile :: visited_profile

record campaign =
  connectionsAttempted :: nat
  processedProfiles :: "string set"
  previousHeight :: int
  noNewContentCount :: nat

record scroll_cycle =
  sc_memberCards :: "error + member_card list"
  sc_scrollTo :: "error + unit"
  sc_scrollHeight :: "error + int"

text \<open>The profile-visit path of a card, from \<open>randomDelay\<close> to the second \<open>randomDelay\<close>.\<close>

definition visit_profile :: "campaign \<Rightarrow> visited_profile \<Rightarrow> string \<Rightarrow> campaign io" where
  "visit_profile st p url =
     io_bind (perform (Goto url) (vp_goto p)) (\<lambda>_.
     io_bind (query (vp_connectionStatus p)) (\<lambda>connectionStatus.
       if (case connectionStatus of
             None \<Rightarrow> False
           | Some s \<Rightarrow> s \<noteq> [] \<and>
               (str_includes s ''Connected'' \<or> str_includes s ''Pending'' \<or>
                str_includes s ''Message''))
       then returns (st\<lparr>processedProfiles := insert url (processedProfiles st)\<rparr>)
       else
         io_bind
           (io_bind (query (vp_moreButton p)) (\<lambda>moreButton.
              case moreButton of
                Some mb \<Rightarrow>
                  io_bind (perform ClickMoreButton (md_click mb)) (\<lambda>_.
                  io_bind (query (md_connectInDropdown mb)) (\<lambda>connectInDropdown.
                    case connectInDropdown of
                      Some ci \<Rightarrow>
                        io_bind (perform ClickConnectOption (dc_click ci)) (\<lambda>_.
                          handleConnectionDialog (dc_dialog ci))
                    | None \<Rightarrow> returns False))
              | None \<Rightarrow> returns False))
           (\<lambda>connected.
              returns
                ((if connected
                  then st\<lparr>connectionsAttempted := connectionsAttempted st + 1\<rparr>
                  else st)
                 \<lparr>processedProfiles := insert url (processedProfiles st)\<rparr>))))"

text \<open>The body of the \<open>try\<close> block around one card.\<close>

definition card_body :: "campaign \<Rightarrow> member_card \<Rightarrow> campaign io" where
  "card_body st c =
     io_bind (query (mc_degreeText c)) (\<lambda>degreeText.
       if (case degreeText of
             None \<Rightarrow> False
           | Some d \<Rightarrow> d \<noteq> [] \<and> (str_includes d ''1st'' \<or> str_includes d ''You''))
       then returns st
       else
         io_bind (query (mc_directConnectButton c)) (\<lambda>directConnectButton.
           case directConnectButton of
             Some dcb \<Rightarrow>
               io_bind (perform ClickCardConnectButton (ccb_click dcb)) (\<lambda>_.
               io_bind (handleConnectionDialog (ccb_dialog dcb)) (\<lambda>_.
                 returns (st\<lparr>connectionsAttempted := connectionsAttempted st + 1\<rparr>)))
           | None \<Rightarrow>
               io_bind (query (mc_profileUrl c)) (\<lambda>url.
                 if url \<in> processedProfiles st then returns st
                 else visit_profile st (mc_profile c) url)))"

text \<open>
  No statement of the \<open>try\<close> block that can throw comes after an assignment to the
  counter or the set, so the \<open>catch\<close> continues from the state the card started in.
\<close>

definition process_card :: "campaign \<Rightarrow> member_card \<Rightarrow> campaign io" where
  "process_card st c = try_catch (card_body st c) (\<lambda>error. returns st)"

fun process_cards :: "campaign \<Rightarrow> member_card list \<Rightarrow> campaign io" where
  "process_cards st [] = returns st"
| "process_cards st (c # cs) =
     (if connectionsAttempted st \<ge> MAX_CONNECTIONS_PER_DAY then returns st
      else io_bind (process_card st c) (\<lambda>st'. process_cards st' cs))"

text \<open>
  The comparison of the page height after a scroll: the flag says whether the loop is left
  by \<open>break\<close>.
\<close>

definition check_height :: "campaign \<Rightarrow> int \<Rightarrow> bool \<times> campaign" where
  "check_height st currentHeight =
     (if currentHeight = previousHeight st then
        (if noNewContentCount st + 1 \<ge> 3
         then (True, st\<lparr>noNewContentCount := noNewContentCount st + 1\<rparr>)
         else (False, st\<lparr>noNewContentCount := noNewContentCount st + 1,
                            previousHeight := currentHeight\<rparr>))
      else (False, st\<lparr>noNewContentCount := 0, previousHeight := currentHeight\<rparr>))"

text \<open>One turn of the \<open>while\<close> loop; the reads outside the \<open>try\<close> abort the run.\<close>

definition scroll_cycle_body :: "scroll_cycle \<Rightarrow> campaign \<Rightarrow> (bool \<times> campaign) io" where
  "scroll_cycle_body cy st =
     io_bind (query (sc_memberCards cy)) (\<lambda>memberCards.
     io_bind (process_cards st memberCards) (\<lambda>st'.
     io_bind (perform ScrollToBottom (sc_scrollTo cy)) (\<lambda>_.
     io_bind (query (sc_scrollHeight cy)) (\<lambda>currentHeight.
       returns (check_height st' currentHeight)))))"

text \<open>
  The \<open>while\<close> loop. The listing may grow for ever, so the loop need not end: the page
  is a sequence of cycles without end, and a run that does not return is \<open>None\<close>.
\<close>

partial_function (option) scroll_loop ::
  "(nat \<Rightarrow> scroll_cycle) \<Rightarrow> nat \<Rightarrow> action list \<Rightarrow> campaign \<Rightarrow> (campaign io) option" where
  "scroll_loop cycles i trace st =
     (if connectionsAttempted st < MAX_CONNECTIONS_PER_DAY then
        (case scroll_cycle_body (cycles i) st of
           (t, Inl e) \<Rightarrow> Some (trace @ t, Inl e)
         | (t, Inr (stop, st')) \<Rightarrow>
             if stop then Some (trace @ t, Inr st')
             else scroll_loop cycles (i + 1) (trace @ t) st')
      else Some (trace, Inr st))"

definition initial_campaign :: campaign where
  "initial_campaign =
     \<lparr>connectionsAttempted = 0, processedProfiles = {}, previousHeight = 0,
      noNewContentCount = 0\<rparr>"

record listing_browser =
  lb_LINKEDIN_GROUP_URL :: string
  lb_group_goto :: "error + unit"
  lb_cycles :: "nat \<Rightarrow> scroll_cycle"

definition connectWithGroupMembers_interleaved ::
  "listing_browser option \<Rightarrow> (campaign io) option" where
  "connectWithGroupMembers_interleaved page =
     (case page of
        None \<Rightarrow> Some (throw (Error ''Browser not initialized''))
      | Some b \<Rightarrow>
          (case lb_group_goto b of
             Inl e \<Rightarrow> Some ([Goto (lb_LINKEDIN_GROUP_URL b)], Inl e)
           | Inr _ \<Rightarrow>
               scroll_loop (lb_cycles b) 0 [Goto (lb_LINKEDIN_GROUP_URL b)] initial_campaign))"

section \<open>The candidate set as the data model describes it\<close>

text \<open>
  The specification's reading of the collector, to compare the code with: a degree hint
  disqualifies when it marks a first-degree connection or the user's own profile, an entry
  is a candidate when its identifier could be read and its hint does not disqualify, and
  the candidate set lists the candidates in the order first seen, each once.
\<close>

definition disqualifying_degree :: "string option \<Rightarrow> bool" where
  "disqualifying_degree hint =
     (case hint of
        None \<Rightarrow> False
      | Some d \<Rightarrow> str_includes d ''1st'' \<or> str_includes d ''You'')"

definition candidate_of :: "card \<Rightarrow> string option" where
  "candidate_of c =
     (case profileUrl c of
        None \<Rightarrow> None
      | Some u \<Rightarrow> if u \<noteq> [] \<and> \<not> disqualifying_degree (degreeText c) then Some u else None)"

primrec first_seen :: "'a list \<Rightarrow> 'a list" where
  "first_seen [] = []"
| "first_seen (x # xs) = x # filter (\<lambda>y. y \<noteq> x) (first_seen xs)"

section \<open>Pages used as concrete inputs\<close>

definition dialog_with_send :: dialog where
  "dialog_with_send = \<lparr>sendButton = Inr (Some \<lparr>sb_click = Inr ()\<rparr>)\<rparr>"

definition dialog_without_send :: dialog where
  "dialog_without_send = \<lparr>sendButton = Inr None\<rparr>"

definition button_ok :: "dialog \<Rightarrow> connect_button" where
  "button_ok d =
     \<lparr>cb_details = Inr (), cb_click = Inr (), cb_dialog = d,
      cb_evaluate_click = Inr (), cb_evaluate_dialog = d\<rparr>"

definition button_intercepted :: "dialog \<Rightarrow> connect_button" where
  "button_intercepted d =
     \<lparr>cb_details = Inr (), cb_click = Inl (Error ''Timeout 60000ms exceeded''),
      cb_dialog = d, cb_evaluate_click = Inr (), cb_evaluate_dialog = d\<rparr>"

definition page_direct :: "dialog \<Rightarrow> profile_page" where
  "page_direct d =
     \<lparr>pp_goto = Inr (), pp_connectButton = Inr (Some (button_ok d)),
      pp_moreButton = Inr None\<rparr>"

definition page_click_intercepted :: "dialog \<Rightarrow> profile_page" where
  "page_click_intercepted d =
     \<lparr>pp_goto = Inr (), pp_connectButton = Inr (Some (button_intercepted d)),
      pp_moreButton = Inr None\<rparr>"

definition connect_entry :: "dialog \<Rightarrow> connect_option" where
  "connect_entry d = \<lparr>co_click = Inr (), co_dialog = d\<rparr>"

definition more_menu :: "dialog \<Rightarrow> more_button" where
  "more_menu d = \<lparr>mb_click = Inr (), mb_connectOption = Inr (Some (connect_entry d))\<rparr>"

definition page_via_more :: "dialog \<Rightarrow> profile_page" where
  "page_via_more d =
     \<lparr>pp_goto = Inr (), pp_connectButton = Inr None, pp_moreButton = Inr (Some (more_menu d))\<rparr>"

definition page_bare :: profile_page where
  "page_bare = \<lparr>pp_goto = Inr (), pp_connectButton = Inr None, pp_moreButton = Inr None\<rparr>"


definition url_A :: string where "url_A = ''https://www.linkedin.com/in/a''"
definition url_B :: string where "url_B = ''https://www.linkedin.com/in/b''"
definition url_C :: string where "url_C = ''https://www.linkedin.com/in/c''"

definition listing_ABCA :: "card list" where
  "listing_ABCA =
     [\<lparr>profileUrl = Some url_A, degreeText = Some ''2nd''\<rparr>,
      \<lparr>profileUrl = Some url_B, degreeText = Some ''1st''\<rparr>,
      \<lparr>profileUrl = Some url_C, degreeText = Some ''2nd''\<rparr>,
      \<lparr>profileUrl = Some url_A, degreeText = Some ''2nd''\<rparr>]"

definition browser_with :: "card list \<Rightarrow> (string \<Rightarrow> profile_page) \<Rightarrow> browser" where
  "browser_with cards pages =
     \<lparr>LINKEDIN_GROUP_URL = ''https://www.linkedin.com/groups/1/members/'',
      group_goto = Inr (), memberCards = Inr cards, profile = pages\<rparr>"

definition card_with_connect :: "dialog \<Rightarrow> member_card" where
  "card_with_connect d =
     \<lparr>mc_degreeText = Inr (Some ''2nd''),
      mc_directConnectButton = Inr (Some \<lparr>ccb_click = Inr (), ccb_dialog = d\<rparr>),
      mc_profileUrl = Inr url_A,
      mc_profile = \<lparr>vp_goto = Inr (), vp_connectionStatus = Inr (Some ''Pending''),
                    vp_moreButton = Inr None\<rparr>\<rparr>"

definition cycle_of :: "member_card list \<Rightarrow> int \<Rightarrow> scroll_cycle" where
  "cycle_of cards h = \<lparr>sc_memberCards = Inr cards, sc_scrollTo = Inr (), sc_scrollHeight = Inr h\<rparr>"

definition pages_all_direct :: "string \<Rightarrow> profile_page" where
  "pages_all_direct = (\<lambda>u. page_direct dialog_with_send)"

definition pages_A_bare :: "string \<Rightarrow> profile_page" where
  "pages_A_bare = (\<lambda>u. if u = url_A then page_bare else page_direct dialog_with_send)"



definition still_listing :: "nat \<Rightarrow> scroll_cycle" where
  "still_listing = (\<lambda>i. cycle_of [card_with_connect dialog_with_send] 1000)"

definition still_browser :: listing_browser where
  "still_browser =
     \<lparr>lb_LINKEDIN_GROUP_URL = ''https://www.linkedin.com/groups/1/members/'',
      lb_group_goto = Inr (), lb_cycles = still_listing\<rparr>"

section \<open>Facts about the combinators\<close>

lemma io_bind_pair [simp]:
  "io_bind (t, r) f = (case r of Inl e \<Rightarrow> (t, Inl e) | Inr x \<Rightarrow> (t @ fst (f x), snd (f x)))"
  by (simp add: io_bind_def split: sum.splits prod.splits)

lemma try_catch_pair [simp]:
  "try_catch (t, r) h = (case r of Inl e \<Rightarrow> (t @ fst (h e), snd (h e)) | Inr x \<Rightarrow> (t, Inr x))"
  by (simp add: try_catch_def split: sum.splits prod.splits)

lemmas io_defs = returns_def throw_def query_def perform_def

section \<open>The wait primitive\<close>



section \<open>The dialog resolver never throws\<close>

lemma handleConnectionDialog_eq:
  "handleConnectionDialog d =
     (case sendButton d of
        Inl e \<Rightarrow> ([], Inr False)
      | Inr None \<Rightarrow> ([], Inr False)
      | Inr (Some b) \<Rightarrow>
          ([ClickSendButton], Inr (case sb_click b of Inl e \<Rightarrow> False | Inr _ \<Rightarrow> True)))"
  by (simp add: handleConnectionDialog_def io_defs split: sum.splits option.splits)

lemma handleConnectionDialog_returns: "\<exists>t sent. handleConnectionDialog d = (t, Inr sent)"
  by (auto simp add: handleConnectionDialog_eq split: sum.splits option.splits)

lemma tryConnect_body_direct:
  assumes "pp_goto p = Inr ()" "pp_connectButton p = Inr (Some cb)" "cb_details cb = Inr ()"
    and "cb_click cb = Inr ()"
  shows "tryConnect_body p url =
           ([Goto url, ClickConnectButton] @ fst (handleConnectionDialog (cb_dialog cb)),
            snd (handleConnectionDialog (cb_dialog cb)))"
proof -
  obtain t sent where "handleConnectionDialog (cb_dialog cb) = (t, Inr sent)"
    using handleConnectionDialog_returns by blast
  then show ?thesis using assms by (simp add: tryConnect_body_def io_defs)
qed

lemma tryConnect_body_evaluate:
  assumes "pp_goto p = Inr ()" "pp_connectButton p = Inr (Some cb)" "cb_details cb = Inr ()"
    and "cb_click cb = Inl e" "cb_evaluate_click cb = Inr ()"
  shows "tryConnect_body p url =
           ([Goto url, ClickConnectButton, EvaluateClickConnectButton]
              @ fst (handleConnectionDialog (cb_evaluate_dialog cb)),
            snd (handleConnectionDialog (cb_evaluate_dialog cb)))"
  using assms by (simp add: tryConnect_body_def io_defs)

lemma tryConnect_body_secondary:
  assumes "pp_goto p = Inr ()" "pp_connectButton p = Inr None" "pp_moreButton p = Inr (Some mb)"
    and "mb_click mb = Inr ()" "mb_connectOption mb = Inr (Some co)" "co_click co = Inr ()"
  shows "tryConnect_body p url =
           ([Goto url, ClickMoreButton, ClickConnectOption]
              @ fst (handleConnectionDialog (co_dialog co)),
            snd (handleConnectionDialog (co_dialog co)))"
  using assms by (simp add: tryConnect_body_def io_defs)

text \<open>
  C7. The dialog resolver always returns \<open>true\<close> (Sent) or \<open>false\<close> (NotFound): when
  no send button matches the selector, when the search throws and when the click throws it
  returns \<open>false\<close>, and no exception leaves it. At each of the three places where the
  connector calls it, a \<open>false\<close> makes the attempt NoAffordanceFound, not an error.
\<close>

theorem dialog_resolver_total:
  "(\<exists>t sent. handleConnectionDialog d = (t, Inr sent)) \<and>
   (sendButton d = Inr None \<longrightarrow> handleConnectionDialog d = ([], Inr False)) \<and>
   (\<forall>e. sendButton d = Inl e \<longrightarrow> handleConnectionDialog d = ([], Inr False)) \<and>
   (\<forall>b e. sendButton d = Inr (Some b) \<and> sb_click b = Inl e \<longrightarrow>
      handleConnectionDialog d = ([ClickSendButton], Inr False)) \<and>
   (\<forall>b. sendButton d = Inr (Some b) \<and> sb_click b = Inr () \<longrightarrow>
      handleConnectionDialog d = ([ClickSendButton], Inr True)) \<and>
   (pp_goto p = Inr () \<and> pp_connectButton p = Inr (Some cb) \<and> cb_details cb = Inr () \<and>
    cb_click cb = Inr () \<and> snd (handleConnectionDialog (cb_dialog cb)) = Inr False \<longrightarrow>
      attempt_result (snd (tryConnect_body p url)) = NoAffordanceFound) \<and>
   (pp_goto p = Inr () \<and> pp_connectButton p = Inr (Some cb) \<and> cb_details cb = Inr () \<and>
    cb_click cb = Inl e' \<and> cb_evaluate_click cb = Inr () \<and>
    snd (handleConnectionDialog (cb_evaluate_dialog cb)) = Inr False \<longrightarrow>
      attempt_result (snd (tryConnect_body p url)) = NoAffordanceFound) \<and>
   (pp_goto p = Inr () \<and> pp_connectButton p = Inr None \<and> pp_moreButton p = Inr (Some mb) \<and>
    mb_click mb = Inr () \<and> mb_connectOption mb = Inr (Some co) \<and> co_click co = Inr () \<and>
    snd (handleConnectionDialog (co_dialog co)) = Inr False \<longrightarrow>
      attempt_result (snd (tryConnect_body p url)) = NoAffordanceFound)"
proof (intro conjI)
  show "\<exists>t sent. handleConnectionDialog d = (t, Inr sent)"
    by (rule handleConnectionDialog_returns)
  show "sendButton d = Inr None \<longrightarrow> handleConnectionDialog d = ([], Inr False)"
    by (simp add: handleConnectionDialog_eq)
  show "\<forall>e. sendButton d = Inl e \<longrightarrow> handleConnectionDialog d = ([], Inr False)"
    by (simp add: handleConnectionDialog_eq)
  show "\<forall>b e. sendButton d = Inr (Some b) \<and> sb_click b = Inl e \<longrightarrow>
      handleConnectionDialog d = ([ClickSendButton], Inr False)"
    by (simp add: handleConnectionDialog_eq)
  show "\<forall>b. sendButton d = Inr (Some b) \<and> sb_click b = Inr () \<longrightarrow>
      handleConnectionDialog d = ([ClickSendButton], Inr True)"
    by (simp add: handleConnectionDialog_eq)
  show "pp_goto p = Inr () \<and> pp_connectButton p = Inr (Some cb) \<and> cb_details cb = Inr () \<and>
    cb_click cb = Inr () \<and> snd (handleConnectionDialog (cb_dialog cb)) = Inr False \<longrightarrow>
      attempt_result (snd (tryConnect_body p url)) = NoAffordanceFound"
    by (simp add: tryConnect_body_direct)
  show "pp_goto p = Inr () \<and> pp_connectButton p = Inr (Some cb) \<and> cb_details cb = Inr () \<and>
    cb_click cb = Inl e' \<and> cb_evaluate_click cb = Inr () \<and>
    snd (handleConnectionDialog (cb_evaluate_dialog cb)) = Inr False \<longrightarrow>
      attempt_result (snd (tryConnect_body p url)) = NoAffordanceFound"
    by (simp add: tryConnect_body_evaluate)
  show "pp_goto p = Inr () \<and> pp_connectButton p = Inr None \<and> pp_moreButton p = Inr (Some mb) \<and>
    mb_click mb = Inr () \<and> mb_connectOption mb = Inr (Some co) \<and> co_click co = Inr () \<and>
    snd (handleConnectionDialog (co_dialog co)) = Inr False \<longrightarrow>
      attempt_result (snd (tryConnect_body p url)) = NoAffordanceFound"
    by (simp add: tryConnect_body_secondary)
qed

theorem dialog_resolver_total_witness:
  "handleConnectionDialog dialog_without_send = ([], Inr False) \<and>
   handleConnectionDialog dialog_with_send = ([ClickSendButton], Inr True) \<and>
   attempt_result (snd (tryConnect_body (page_direct dialog_without_send) url_A))
     = NoAffordanceFound \<and>
   attempt_result (snd (tryConnect_body (page_click_intercepted dialog_without_send) url_A))
     = NoAffordanceFound \<and>
   attempt_result (snd (tryConnect_body (page_via_more dialog_without_send) url_A))
     = NoAffordanceFound"
proof -
  let ?d = dialog_without_send
  have s: "snd (handleConnectionDialog ?d) = Inr False"
    by (simp add: handleConnectionDialog_eq dialog_without_send_def)
  note a = dialog_resolver_total [of ?d "page_direct ?d" "button_ok ?d" url_A]
  note b = dialog_resolver_total [of dialog_with_send "page_click_intercepted ?d"
      "button_intercepted ?d" url_A "Error ''Timeout 60000ms exceeded''"]
  note c = dialog_resolver_total [of ?d "page_via_more ?d" _ url_A _ "more_menu ?d"
      "connect_entry ?d"]
  have 1: "handleConnectionDialog ?d = ([], Inr False)"
    using a by (simp add: dialog_without_send_def)
  have 2: "handleConnectionDialog dialog_with_send = ([ClickSendButton], Inr True)"
    using b by (simp add: dialog_with_send_def)
  have 3: "attempt_result (snd (tryConnect_body (page_direct ?d) url_A)) = NoAffordanceFound"
    using a s by (simp add: page_direct_def button_ok_def)
  have 4: "attempt_result (snd (tryConnect_body (page_click_intercepted ?d) url_A))
             = NoAffordanceFound"
    using b s by (simp add: page_click_intercepted_def button_intercepted_def)
  have 5: "attempt_result (snd (tryConnect_body (page_via_more ?d) url_A)) = NoAffordanceFound"
    using c s by (simp add: page_via_more_def more_menu_def connect_entry_def)
  from 1 2 3 4 5 show ?thesis by simp
qed

section \<open>The connector and the orchestrator loop\<close>

lemma tryConnectWithProfile_returns:
  "\<exists>t connected. tryConnectWithProfile (Some b) url = (t, Inr connected)"
proof (cases "tryConnect_body (profile b url) url")
  case (Pair t r)
  then show ?thesis by (cases r) (auto simp add: tryConnectWithProfile_def io_defs)
qed


lemma process_profiles_step:
  assumes "n < cap"
  shows "process_profiles cap b (url # rest) n =
           (fst (tryConnectWithProfile (Some b) url)
              @ fst (process_profiles cap b rest
                       (if snd (tryConnectWithProfile (Some b) url) = Inr True then n + 1 else n)),
            snd (process_profiles cap b rest
                   (if snd (tryConnectWithProfile (Some b) url) = Inr True then n + 1 else n)))"
proof -
  obtain t c where "tryConnectWithProfile (Some b) url = (t, Inr c)"
    using tryConnectWithProfile_returns by blast
  then show ?thesis using assms by (cases c) simp_all
qed

lemma process_profiles_stop:
  assumes "cap \<le> n"
  shows "process_profiles cap b urls n = ([], Inr n)"
  using assms by (cases urls) (simp_all add: returns_def)

lemma process_profiles_bounds:
  "n \<le> cap \<Longrightarrow>
     \<exists>t k. process_profiles cap b urls n = (t, Inr k) \<and> n \<le> k \<and> k \<le> cap \<and>
       k \<le> n + length urls"
proof (induction urls arbitrary: n)
  case Nil
  then show ?case by (simp add: returns_def)
next
  case (Cons url rest)
  show ?case
  proof (cases "n < cap")
    case False
    with Cons.prems show ?thesis by (simp add: returns_def)
  next
    case True
    let ?n = "if snd (tryConnectWithProfile (Some b) url) = Inr True then n + 1 else n"
    have "?n \<le> cap" using True by simp
    from Cons.IH [OF this] obtain t k where
      "process_profiles cap b rest ?n = (t, Inr k)" "?n \<le> k" "k \<le> cap"
      "k \<le> ?n + length rest"
      by blast
    then show ?thesis unfolding process_profiles_step [OF True]
      by (auto split: if_splits)
  qed
qed


section \<open>The collector against the candidate set of the data model\<close>

lemma set_first_seen [simp]: "set (first_seen xs) = set xs"
  by (induction xs) auto

lemma distinct_first_seen [simp]: "distinct (first_seen xs)"
  by (induction xs) auto

lemma collect_card_candidate:
  "collect_card acc c =
     (case candidate_of c of
        None \<Rightarrow> acc
      | Some u \<Rightarrow> if u \<in> set acc then acc else acc @ [u])"
  by (auto simp: collect_card_def candidate_of_def disqualifying_degree_def
      split: option.splits)

lemma foldl_collect_card:
  "foldl collect_card acc cards =
     acc @ filter (\<lambda>u. u \<notin> set acc) (first_seen (List.map_filter candidate_of cards))"
proof (induction cards arbitrary: acc)
  case Nil
  then show ?case by simp
next
  case (Cons c cards)
  show ?case
  proof (cases "candidate_of c")
    case None
    then show ?thesis using Cons.IH [of acc]
      by (simp add: collect_card_candidate)
  next
    case (Some u)
    show ?thesis
    proof (cases "u \<in> set acc")
      case True
      have "filter (\<lambda>x. x \<notin> set acc) (filter (\<lambda>y. y \<noteq> u) ys)
              = filter (\<lambda>x. x \<notin> set acc) ys" for ys
        using True by (induction ys) auto
      then show ?thesis using Some True Cons.IH [of acc]
        by (simp add: collect_card_candidate)
    next
      case False
      have "filter (\<lambda>x. x \<notin> set (acc @ [u])) ys
              = filter (\<lambda>x. x \<notin> set acc) (filter (\<lambda>y. y \<noteq> u) ys)" for ys
        by (induction ys) auto
      then show ?thesis using Some False Cons.IH [of "acc @ [u]"]
        by (simp add: collect_card_candidate)
    qed
  qed
qed

lemma candidate_of_in:
  "u \<in> set (List.map_filter candidate_of cards) \<Longrightarrow>
     \<exists>c \<in> set cards. profileUrl c = Some u \<and> \<not> disqualifying_degree (degreeText c)"
  by (auto simp: List.map_filter_def candidate_of_def split: option.splits if_splits)

section \<open>The interleaved loop: what a card and a cycle can change\<close>

lemma visit_profile_frame:
  assumes "visit_profile st p url = (t, Inr st')"
  shows "connectionsAttempted st \<le> connectionsAttempted st' \<and>
         connectionsAttempted st' \<le> connectionsAttempted st + 1 \<and>
         previousHeight st' = previousHeight st \<and>
         noNewContentCount st' = noNewContentCount st \<and>
         processedProfiles st' = insert url (processedProfiles st)"
  using assms
  by (auto simp: visit_profile_def io_defs handleConnectionDialog_eq
      split: sum.splits option.splits if_splits)

lemma card_body_frame:
  assumes "card_body st c = (t, Inr st')"
  shows "connectionsAttempted st \<le> connectionsAttempted st' \<and>
         connectionsAttempted st' \<le> connectionsAttempted st + 1 \<and>
         previousHeight st' = previousHeight st \<and>
         noNewContentCount st' = noNewContentCount st \<and>
         processedProfiles st \<subseteq> processedProfiles st'"
  using assms
  by (auto simp: card_body_def io_defs handleConnectionDialog_eq
      split: sum.splits option.splits if_splits prod.splits dest!: visit_profile_frame)

lemma process_card_returns: "\<exists>t st'. process_card st c = (t, Inr st')"
proof (cases "card_body st c")
  case (Pair t r)
  then show ?thesis by (cases r) (auto simp: process_card_def io_defs)
qed

lemma process_card_frame:
  assumes "process_card st c = (t, Inr st')"
  shows "connectionsAttempted st \<le> connectionsAttempted st' \<and>
         connectionsAttempted st' \<le> connectionsAttempted st + 1 \<and>
         previousHeight st' = previousHeight st \<and>
         noNewContentCount st' = noNewContentCount st \<and>
         processedProfiles st \<subseteq> processedProfiles st'"
proof (cases "card_body st c")
  case (Pair t0 r)
  show ?thesis
  proof (cases r)
    case (Inl e)
    with Pair assms show ?thesis by (simp add: process_card_def io_defs)
  next
    case (Inr s)
    with Pair assms have "card_body st c = (t, Inr st')" by (simp add: process_card_def)
    then show ?thesis by (rule card_body_frame)
  qed
qed

lemma process_cards_frame:
  "connectionsAttempted st \<le> MAX_CONNECTIONS_PER_DAY \<Longrightarrow>
   \<exists>t st'. process_cards st cs = (t, Inr st') \<and>
     connectionsAttempted st \<le> connectionsAttempted st' \<and>
     connectionsAttempted st' \<le> MAX_CONNECTIONS_PER_DAY \<and>
     previousHeight st' = previousHeight st \<and>
     noNewContentCount st' = noNewContentCount st \<and>
     processedProfiles st \<subseteq> processedProfiles st'"
proof (induction cs arbitrary: st)
  case Nil
  then show ?case by (simp add: returns_def)
next
  case (Cons c cs)
  show ?case
  proof (cases "connectionsAttempted st \<ge> MAX_CONNECTIONS_PER_DAY")
    case True
    with Cons.prems show ?thesis by (simp add: returns_def)
  next
    case False
    obtain t1 st1 where p: "process_card st c = (t1, Inr st1)"
      using process_card_returns by blast
    note f = process_card_frame [OF p]
    have "connectionsAttempted st1 \<le> MAX_CONNECTIONS_PER_DAY" using f False by simp
    from Cons.IH [OF this] obtain t2 st2 where
      q: "process_cards st1 cs = (t2, Inr st2)"
        "connectionsAttempted st1 \<le> connectionsAttempted st2"
        "connectionsAttempted st2 \<le> MAX_CONNECTIONS_PER_DAY"
        "previousHeight st2 = previousHeight st1"
        "noNewContentCount st2 = noNewContentCount st1"
        "processedProfiles st1 \<subseteq> processedProfiles st2"
      by blast
    show ?thesis using False p q f by auto
  qed
qed


lemma check_height_frame:
  "check_height st h = (stop, st') \<Longrightarrow>
     connectionsAttempted st' = connectionsAttempted st \<and>
     processedProfiles st' = processedProfiles st"
  by (auto simp: check_height_def split: if_splits)

lemma scroll_cycle_body_result:
  assumes "scroll_cycle_body cy st = (t, Inr (stop, st'))"
  shows "\<exists>cards t1 st1 h.
           sc_memberCards cy = Inr cards \<and> process_cards st cards = (t1, Inr st1) \<and>
           sc_scrollTo cy = Inr () \<and> sc_scrollHeight cy = Inr h \<and>
           t = t1 @ [ScrollToBottom] \<and> (stop, st') = check_height st1 h"
proof (cases "sc_memberCards cy")
  case (Inl e)
  with assms show ?thesis by (simp add: scroll_cycle_body_def io_defs)
next
  case (Inr cards)
  obtain t1 r1 where p: "process_cards st cards = (t1, r1)" by (cases "process_cards st cards")
  show ?thesis using assms Inr p
    by (cases r1) (auto simp: scroll_cycle_body_def io_defs split: sum.splits)
qed

lemma scroll_cycle_body_frame:
  assumes "connectionsAttempted st \<le> MAX_CONNECTIONS_PER_DAY"
    and "scroll_cycle_body cy st = (t, Inr (stop, st'))"
  shows "connectionsAttempted st \<le> connectionsAttempted st' \<and>
         connectionsAttempted st' \<le> MAX_CONNECTIONS_PER_DAY \<and>
         processedProfiles st \<subseteq> processedProfiles st'"
proof -
  from scroll_cycle_body_result [OF assms(2)] obtain cards t1 st1 h where
    r: "process_cards st cards = (t1, Inr st1)" "(stop, st') = check_height st1 h"
    by blast
  from process_cards_frame [OF assms(1), of cards] r(1) have
    "connectionsAttempted st \<le> connectionsAttempted st1"
    "connectionsAttempted st1 \<le> MAX_CONNECTIONS_PER_DAY"
    "processedProfiles st \<subseteq> processedProfiles st1"
    by auto
  then show ?thesis using check_height_frame [OF r(2) [symmetric]] by simp
qed

lemma scroll_loop_cap_aux:
  "scroll_loop cycles i tr st = Some y \<Longrightarrow>
     connectionsAttempted st \<le> MAX_CONNECTIONS_PER_DAY \<longrightarrow>
     (\<forall>t st'. y = (t, Inr st') \<longrightarrow>
        connectionsAttempted st \<le> connectionsAttempted st' \<and>
        connectionsAttempted st' \<le> MAX_CONNECTIONS_PER_DAY)"
proof (induction rule: scroll_loop.raw_induct [rotated, consumes 1])
  case (1 loop cycles i tr st y)
  show ?case
  proof (intro impI allI)
    fix t st'
    assume cap: "connectionsAttempted st \<le> MAX_CONNECTIONS_PER_DAY" and y: "y = (t, Inr st')"
    show "connectionsAttempted st \<le> connectionsAttempted st' \<and>
        connectionsAttempted st' \<le> MAX_CONNECTIONS_PER_DAY"
    proof (cases "connectionsAttempted st < MAX_CONNECTIONS_PER_DAY")
      case False
      with 1(2) y cap show ?thesis by simp
    next
      case True
      obtain t1 r1 where b: "scroll_cycle_body (cycles i) st = (t1, r1)"
        by (cases "scroll_cycle_body (cycles i) st")
      show ?thesis
      proof (cases r1)
        case (Inl e)
        with 1(2) True b y show ?thesis by simp
      next
        case (Inr sr)
        obtain stop st1 where sr: "sr = (stop, st1)" by (cases sr)
        note f = scroll_cycle_body_frame [OF cap b [unfolded Inr sr]]
        show ?thesis
        proof (cases stop)
          case True
          with 1(2) \<open>connectionsAttempted st < MAX_CONNECTIONS_PER_DAY\<close> b Inr sr y f
          show ?thesis by simp
        next
          case False
          with 1(2) \<open>connectionsAttempted st < MAX_CONNECTIONS_PER_DAY\<close> b Inr sr
          have "loop cycles (i + 1) (tr @ t1) st1 = Some y" by simp
          from 1(1) [OF this] f y show ?thesis by auto
        qed
      qed
    qed
  qed
qed


lemma scroll_loop_done:
  "\<not> connectionsAttempted st < MAX_CONNECTIONS_PER_DAY \<Longrightarrow>
     scroll_loop cycles i tr st = Some (tr, Inr st)"
  by (subst scroll_loop.simps) simp

lemma scroll_loop_abort:
  "connectionsAttempted st < MAX_CONNECTIONS_PER_DAY \<Longrightarrow>
   scroll_cycle_body (cycles i) st = (t, Inl e) \<Longrightarrow>
     scroll_loop cycles i tr st = Some (tr @ t, Inl e)"
  by (subst scroll_loop.simps) simp

lemma scroll_loop_break:
  "connectionsAttempted st < MAX_CONNECTIONS_PER_DAY \<Longrightarrow>
   scroll_cycle_body (cycles i) st = (t, Inr (True, st')) \<Longrightarrow>
     scroll_loop cycles i tr st = Some (tr @ t, Inr st')"
  by (subst scroll_loop.simps) simp

lemma scroll_loop_next:
  "connectionsAttempted st < MAX_CONNECTIONS_PER_DAY \<Longrightarrow>
   scroll_cycle_body (cycles i) st = (t, Inr (False, st')) \<Longrightarrow>
     scroll_loop cycles i tr st = scroll_loop cycles (i + 1) (tr @ t) st'"
  by (subst scroll_loop.simps) simp

lemma scroll_cycle_body_heights:
  assumes "connectionsAttempted st \<le> MAX_CONNECTIONS_PER_DAY"
    and "scroll_cycle_body cy st = (t, Inr (stop, st'))"
  shows "\<exists>h. sc_scrollHeight cy = Inr h \<and>
           (stop, st') = check_height (st'\<lparr>previousHeight := previousHeight st,
              noNewContentCount := noNewContentCount st\<rparr>) h \<and>
           (\<not> stop \<longrightarrow> previousHeight st' = h) \<and>
           (h = previousHeight st \<longrightarrow>
              (stop \<longleftrightarrow> 3 \<le> noNewContentCount st + 1) \<and>
              noNewContentCount st' = noNewContentCount st + 1) \<and>
           (h \<noteq> previousHeight st \<longrightarrow> \<not> stop \<and> noNewContentCount st' = 0)"
proof -
  from scroll_cycle_body_result [OF assms(2)] obtain cards t1 st1 h where
    r: "process_cards st cards = (t1, Inr st1)" "sc_scrollHeight cy = Inr h"
       "(stop, st') = check_height st1 h"
    by blast
  from process_cards_frame [OF assms(1), of cards] r(1) have
    f: "previousHeight st1 = previousHeight st" "noNewContentCount st1 = noNewContentCount st"
    by auto
  show ?thesis using r(2,3) f
    by (auto simp: check_height_def split: if_splits)
qed

lemma scroll_loop_stalls:
  "0 < m \<Longrightarrow> 3 \<le> noNewContentCount st + m \<Longrightarrow> previousHeight st = h \<Longrightarrow>
   (\<forall>j<m. sc_scrollHeight (cycles (i + j)) = Inr h) \<Longrightarrow>
     \<exists>r. scroll_loop cycles i tr st = Some r"
proof (induction m arbitrary: i tr st)
  case 0
  then show ?case by simp
next
  case (Suc m)
  show ?case
  proof (cases "connectionsAttempted st < MAX_CONNECTIONS_PER_DAY")
    case False
    then show ?thesis by (simp add: scroll_loop_done)
  next
    case True
    obtain t1 r1 where b: "scroll_cycle_body (cycles i) st = (t1, r1)"
      by (cases "scroll_cycle_body (cycles i) st")
    show ?thesis
    proof (cases r1)
      case (Inl e)
      with True b show ?thesis by (simp add: scroll_loop_abort)
    next
      case (Inr sr)
      obtain stop st1 where sr: "sr = (stop, st1)" by (cases sr)
      note b' = b [unfolded Inr sr]
      show ?thesis
      proof (cases stop)
        case True
        with \<open>connectionsAttempted st < MAX_CONNECTIONS_PER_DAY\<close> b' show ?thesis
          by (simp add: scroll_loop_break)
      next
        case False
        have cap: "connectionsAttempted st \<le> MAX_CONNECTIONS_PER_DAY" using True by simp
        have h0: "sc_scrollHeight (cycles i) = Inr h" using Suc.prems(4) [rule_format, of 0] by simp
        from scroll_cycle_body_heights [OF cap b'] h0 Suc.prems(3) False
        have st1: "previousHeight st1 = h" "noNewContentCount st1 = noNewContentCount st + 1"
          "\<not> 3 \<le> noNewContentCount st + 1"
          by auto
        have m: "0 < m" "3 \<le> noNewContentCount st1 + m" using st1 Suc.prems(2) by auto
        have hs: "\<forall>j<m. sc_scrollHeight (cycles (i + 1 + j)) = Inr h"
          using Suc.prems(4) by (metis Suc_less_eq add.commute add_Suc_right plus_1_eq_Suc add.assoc)
        from Suc.IH [OF m st1(1) hs, of "tr @ t1"] obtain r where
          "scroll_loop cycles (i + 1) (tr @ t1) st1 = Some r" by blast
        then show ?thesis using True b' False by (simp add: scroll_loop_next)
      qed
    qed
  qed
qed

lemma scroll_loop_terminates:
  "i \<le> k \<Longrightarrow> (k = i \<longrightarrow> previousHeight st = h) \<Longrightarrow>
   (i < k \<longrightarrow> sc_scrollHeight (cycles (k - 1)) = Inr h) \<Longrightarrow>
   (\<forall>j<3. sc_scrollHeight (cycles (k + j)) = Inr h) \<Longrightarrow>
     \<exists>r. scroll_loop cycles i tr st = Some r"
proof (induction "k - i" arbitrary: i tr st)
  case 0
  then have "k = i" by simp
  with 0 show ?case using scroll_loop_stalls [of 3 st h cycles i tr] by simp
next
  case (Suc d)
  then have lt: "i < k" by simp
  show ?case
  proof (cases "connectionsAttempted st < MAX_CONNECTIONS_PER_DAY")
    case False
    then show ?thesis by (simp add: scroll_loop_done)
  next
    case True
    obtain t1 r1 where b: "scroll_cycle_body (cycles i) st = (t1, r1)"
      by (cases "scroll_cycle_body (cycles i) st")
    show ?thesis
    proof (cases r1)
      case (Inl e)
      with True b show ?thesis by (simp add: scroll_loop_abort)
    next
      case (Inr sr)
      obtain stop st1 where sr: "sr = (stop, st1)" by (cases sr)
      note b' = b [unfolded Inr sr]
      show ?thesis
      proof (cases stop)
        case True
        with \<open>connectionsAttempted st < MAX_CONNECTIONS_PER_DAY\<close> b' show ?thesis
          by (simp add: scroll_loop_break)
      next
        case False
        have cap: "connectionsAttempted st \<le> MAX_CONNECTIONS_PER_DAY" using True by simp
        from scroll_cycle_body_heights [OF cap b'] False obtain h' where
          h': "sc_scrollHeight (cycles i) = Inr h'" "previousHeight st1 = h'" by auto
        have 1: "d = k - (i + 1)" using Suc.hyps(2) by simp
        have 2: "i + 1 \<le> k" using lt by simp
        have 3: "k = i + 1 \<longrightarrow> previousHeight st1 = h" using h' Suc.prems(3) lt by auto
        have 4: "i + 1 < k \<longrightarrow> sc_scrollHeight (cycles (k - 1)) = Inr h"
          using Suc.prems(3) lt by simp
        from Suc.hyps(1) [OF 1 2 3 4 Suc.prems(4), of "tr @ t1"] obtain r where
          "scroll_loop cycles (i + 1) (tr @ t1) st1 = Some r" by blast
        then show ?thesis using True b' False by (simp add: scroll_loop_next)
      qed
    qed
  qed
qed

section \<open>The secondary-menu path of the connector\<close>




section \<open>A failing candidate does not end the run\<close>





section \<open>A run on a listing that stops growing\<close>

lemma still_cycle_body:
  assumes "connectionsAttempted st < MAX_CONNECTIONS_PER_DAY"
  shows "scroll_cycle_body (still_listing i) st =
           ([ClickCardConnectButton, ClickSendButton, ScrollToBottom],
            Inr (check_height (st\<lparr>connectionsAttempted := connectionsAttempted st + 1\<rparr>) 1000))"
  using assms
  by (simp add: scroll_cycle_body_def still_listing_def cycle_of_def process_card_def
      card_body_def card_with_connect_def handleConnectionDialog_eq dialog_with_send_def io_defs)

lemma still_run:
  "scroll_loop still_listing 0 tr initial_campaign =
     Some (tr @ [ClickCardConnectButton, ClickSendButton, ScrollToBottom,
                 ClickCardConnectButton, ClickSendButton, ScrollToBottom,
                 ClickCardConnectButton, ClickSendButton, ScrollToBottom,
                 ClickCardConnectButton, ClickSendButton, ScrollToBottom],
           Inr \<lparr>connectionsAttempted = 4, processedProfiles = {}, previousHeight = 1000,
                noNewContentCount = 3\<rparr>)"
proof -
  let ?t = "[ClickCardConnectButton, ClickSendButton, ScrollToBottom]"
  let ?s0 = "initial_campaign"
  let ?s1 = "\<lparr>connectionsAttempted = 1, processedProfiles = {}, previousHeight = 1000,
              noNewContentCount = 0\<rparr>"
  let ?s2 = "\<lparr>connectionsAttempted = 2, processedProfiles = {}, previousHeight = 1000,
              noNewContentCount = 1\<rparr>"
  let ?s3 = "\<lparr>connectionsAttempted = 3, processedProfiles = {}, previousHeight = 1000,
              noNewContentCount = 2\<rparr>"
  let ?s4 = "\<lparr>connectionsAttempted = 4, processedProfiles = {}, previousHeight = 1000,
              noNewContentCount = 3\<rparr>"
  have b0: "scroll_cycle_body (still_listing 0) ?s0 = (?t, Inr (False, ?s1))"
    by (subst still_cycle_body)
      (simp_all add: initial_campaign_def MAX_CONNECTIONS_PER_DAY_def check_height_def)
  have b1: "scroll_cycle_body (still_listing (0 + 1)) ?s1 = (?t, Inr (False, ?s2))"
    by (subst still_cycle_body) (simp_all add: MAX_CONNECTIONS_PER_DAY_def check_height_def)
  have b2: "scroll_cycle_body (still_listing (0 + 1 + 1)) ?s2 = (?t, Inr (False, ?s3))"
    by (subst still_cycle_body) (simp_all add: MAX_CONNECTIONS_PER_DAY_def check_height_def)
  have b3: "scroll_cycle_body (still_listing (0 + 1 + 1 + 1)) ?s3 = (?t, Inr (True, ?s4))"
    by (subst still_cycle_body) (simp_all add: MAX_CONNECTIONS_PER_DAY_def check_height_def)
  have c: "connectionsAttempted ?s0 < MAX_CONNECTIONS_PER_DAY"
    "connectionsAttempted ?s1 < MAX_CONNECTIONS_PER_DAY"
    "connectionsAttempted ?s2 < MAX_CONNECTIONS_PER_DAY"
    "connectionsAttempted ?s3 < MAX_CONNECTIONS_PER_DAY"
    by (simp_all add: initial_campaign_def MAX_CONNECTIONS_PER_DAY_def)
  show ?thesis
    unfolding scroll_loop_next [where cycles = still_listing and i = 0, OF c(1) b0]
      scroll_loop_next [where cycles = still_listing and i = "0 + 1", OF c(2) b1]
      scroll_loop_next [where cycles = still_listing and i = "0 + 1 + 1", OF c(3) b2]
      scroll_loop_break [where cycles = still_listing and i = "0 + 1 + 1 + 1", OF c(4) b3]
    by simp
qed

section \<open>The daily cap\<close>

lemma connectWithGroupMembers_cap:
  assumes "group_goto b = Inr ()"
  shows "\<exists>t k. connectWithGroupMembers (Some b) = (t, Inr k) \<and> k \<le> 25"
proof -
  from process_profiles_bounds [of 0 MAX_CONNECTIONS_PER_DAY b "collect_profileUrls b"]
  obtain t k where "process_profiles MAX_CONNECTIONS_PER_DAY b (collect_profileUrls b) 0 = (t, Inr k)"
    "k \<le> MAX_CONNECTIONS_PER_DAY" by auto
  then show ?thesis using assms
    by (simp add: connectWithGroupMembers_def io_defs MAX_CONNECTIONS_PER_DAY_def)
qed

lemma process_profiles_two_of_three:
  assumes "snd (tryConnectWithProfile (Some b) A) = Inr True"
    and "snd (tryConnectWithProfile (Some b) B) = Inr True"
  shows "process_profiles 2 b [A, B, C] 0 =
           (fst (tryConnectWithProfile (Some b) A) @ fst (tryConnectWithProfile (Some b) B),
            Inr 2)"
proof -
  have 1: "process_profiles 2 b [A, B, C] 0 =
             (fst (tryConnectWithProfile (Some b) A) @ fst (process_profiles 2 b [B, C] (Suc 0)),
              snd (process_profiles 2 b [B, C] (Suc 0)))"
    using process_profiles_step [of 0 2 b A "[B, C]"] assms(1)
    by (simp del: process_profiles.simps)
  have 2: "process_profiles 2 b [B, C] (Suc 0) =
             (fst (tryConnectWithProfile (Some b) B)
                @ fst (process_profiles 2 b [C] (Suc (Suc 0))),
              snd (process_profiles 2 b [C] (Suc (Suc 0))))"
    using process_profiles_step [of "Suc 0" 2 b B "[C]"] assms(2)
    by (simp del: process_profiles.simps)
  have 3: "process_profiles 2 b [C] (Suc (Suc 0)) = ([], Inr (Suc (Suc 0)))"
    by (rule process_profiles_stop) simp
  show ?thesis unfolding 1 2 3 by simp
qed

lemma interleaved_cap:
  assumes "connectWithGroupMembers_interleaved page = Some (t, Inr st')"
  shows "connectionsAttempted st' \<le> 25"
proof (cases page)
  case None
  with assms show ?thesis by (simp add: connectWithGroupMembers_interleaved_def io_defs)
next
  case (Some lb)
  show ?thesis
  proof (cases "lb_group_goto lb")
    case (Inl e)
    with Some assms show ?thesis by (simp add: connectWithGroupMembers_interleaved_def)
  next
    case (Inr u)
    with Some assms have
      "scroll_loop (lb_cycles lb) 0 [Goto (lb_LINKEDIN_GROUP_URL lb)] initial_campaign
         = Some (t, Inr st')"
      by (simp add: connectWithGroupMembers_interleaved_def)
    from scroll_loop_cap_aux [OF this] show ?thesis
      by (simp add: initial_campaign_def MAX_CONNECTIONS_PER_DAY_def)
  qed
qed

text \<open>
  C1. In every run the success counter ends at most at the cap. The \<open>for\<close> loop over
  the candidates tests the cap before each candidate and does nothing more once the counter
  has reached it; with the source's cap of 25 the count of a whole run is at most 25. With
  a cap of 2 and candidates \<open>[A, B, C]\<close> whose attempts succeed, only \<open>A\<close> and
  \<open>B\<close> are visited and the count is 2. The interleaved loop keeps the same bound: a
  pass over the member cards and the whole run end with a counter of at most 25.
\<close>

theorem cap_never_exceeded:
  "(\<exists>t k. process_profiles cap b urls 0 = (t, Inr k) \<and> k \<le> cap) \<and>
   (group_goto b = Inr () \<longrightarrow>
      (\<exists>t k. connectWithGroupMembers (Some b) = (t, Inr k) \<and> k \<le> 25)) \<and>
   (cap \<le> n \<longrightarrow> process_profiles cap b urls n = ([], Inr n)) \<and>
   (snd (tryConnectWithProfile (Some b) A) = Inr True \<and>
    snd (tryConnectWithProfile (Some b) B) = Inr True \<longrightarrow>
      process_profiles 2 b [A, B, C] 0 =
        (fst (tryConnectWithProfile (Some b) A) @ fst (tryConnectWithProfile (Some b) B),
         Inr 2)) \<and>
   (connectionsAttempted st \<le> 25 \<longrightarrow>
      (\<exists>t st'. process_cards st cs = (t, Inr st') \<and> connectionsAttempted st' \<le> 25)) \<and>
   (\<forall>t st'. connectionsAttempted st \<le> 25 \<and> scroll_loop cycles i tr st = Some (t, Inr st') \<longrightarrow>
      connectionsAttempted st' \<le> 25) \<and>
   (\<forall>t st'. connectWithGroupMembers_interleaved page = Some (t, Inr st') \<longrightarrow>
      connectionsAttempted st' \<le> 25)"
proof (intro conjI allI impI)
  show "\<exists>t k. process_profiles cap b urls 0 = (t, Inr k) \<and> k \<le> cap"
    using process_profiles_bounds [of 0 cap b urls] by auto
next
  assume "group_goto b = Inr ()"
  then show "\<exists>t k. connectWithGroupMembers (Some b) = (t, Inr k) \<and> k \<le> 25"
    by (rule connectWithGroupMembers_cap)
next
  assume "cap \<le> n"
  then show "process_profiles cap b urls n = ([], Inr n)"
    by (rule process_profiles_stop)
next
  assume h: "snd (tryConnectWithProfile (Some b) A) = Inr True \<and>
    snd (tryConnectWithProfile (Some b) B) = Inr True"
  from h [THEN conjunct1] h [THEN conjunct2]
  show "process_profiles 2 b [A, B, C] 0 =
        (fst (tryConnectWithProfile (Some b) A) @ fst (tryConnectWithProfile (Some b) B),
         Inr 2)"
    by (rule process_profiles_two_of_three)
next
  assume "connectionsAttempted st \<le> 25"
  then show "\<exists>t st'. process_cards st cs = (t, Inr st') \<and> connectionsAttempted st' \<le> 25"
    using process_cards_frame [of st cs] by (auto simp: MAX_CONNECTIONS_PER_DAY_def)
next
  fix t st'
  assume "connectionsAttempted st \<le> 25 \<and> scroll_loop cycles i tr st = Some (t, Inr st')"
  then show "connectionsAttempted st' \<le> 25"
    using scroll_loop_cap_aux [of cycles i tr st "(t, Inr st')"]
    by (simp add: MAX_CONNECTIONS_PER_DAY_def)
next
  fix t st'
  assume "connectWithGroupMembers_interleaved page = Some (t, Inr st')"
  then show "connectionsAttempted st' \<le> 25" by (rule interleaved_cap)
qed

theorem cap_never_exceeded_witness:
  "snd (tryConnectWithProfile (Some (browser_with listing_ABCA pages_all_direct)) url_A)
     = Inr True \<and>
   snd (tryConnectWithProfile (Some (browser_with listing_ABCA pages_all_direct)) url_B)
     = Inr True \<and>
   snd (tryConnectWithProfile (Some (browser_with listing_ABCA pages_all_direct)) url_C)
     = Inr True \<and>
   process_profiles 2 (browser_with listing_ABCA pages_all_direct) [url_A, url_B, url_C] 0
     = ([Goto url_A, ClickConnectButton, ClickSendButton,
         Goto url_B, ClickConnectButton, ClickSendButton], Inr 2) \<and>
   process_profiles 25 (browser_with listing_ABCA pages_all_direct) [url_A, url_B, url_C] 25
     = ([], Inr 25) \<and>
   connectWithGroupMembers (Some (browser_with listing_ABCA pages_all_direct))
     = ([Goto ''https://www.linkedin.com/groups/1/members/'',
         Goto url_A, ClickConnectButton, ClickSendButton,
         Goto url_C, ClickConnectButton, ClickSendButton], Inr 2) \<and>
   connectWithGroupMembers_interleaved (Some still_browser)
     = Some ([Goto ''https://www.linkedin.com/groups/1/members/'',
              ClickCardConnectButton, ClickSendButton, ScrollToBottom,
              ClickCardConnectButton, ClickSendButton, ScrollToBottom,
              ClickCardConnectButton, ClickSendButton, ScrollToBottom,
              ClickCardConnectButton, ClickSendButton, ScrollToBottom],
             Inr \<lparr>connectionsAttempted = 4, processedProfiles = {}, previousHeight = 1000,
                  noNewContentCount = 3\<rparr>) \<and>
   connectionsAttempted
     \<lparr>connectionsAttempted = 4, processedProfiles = {}, previousHeight = 1000,
      noNewContentCount = 3\<rparr> \<le> 25"
proof -
  let ?b = "browser_with listing_ABCA pages_all_direct"
  have c: "tryConnectWithProfile (Some ?b) u = ([Goto u, ClickConnectButton, ClickSendButton], Inr True)"
    for u
    by (simp add: tryConnectWithProfile_def tryConnect_body_def browser_with_def
        pages_all_direct_def io_defs page_direct_def button_ok_def dialog_with_send_def
        handleConnectionDialog_eq)
  have g: "group_goto ?b = Inr ()" by (simp add: browser_with_def)
  have l: "collect_profileUrls ?b = [url_A, url_C]"
    by (simp add: collect_profileUrls_def browser_with_def listing_ABCA_def collect_card_def
      url_A_def url_B_def url_C_def)
  have r: "connectWithGroupMembers (Some ?b)
     = ([Goto ''https://www.linkedin.com/groups/1/members/'',
         Goto url_A, ClickConnectButton, ClickSendButton,
         Goto url_C, ClickConnectButton, ClickSendButton], Inr 2)"
  proof -
    have u: "LINKEDIN_GROUP_URL ?b = ''https://www.linkedin.com/groups/1/members/''"
      by (simp add: browser_with_def)
    have p: "process_profiles 25 ?b [url_A, url_C] 0
               = ([Goto url_A, ClickConnectButton, ClickSendButton,
                   Goto url_C, ClickConnectButton, ClickSendButton], Inr 2)"
      by (simp add: tryConnectWithProfile_def tryConnect_body_def browser_with_def
          pages_all_direct_def io_defs page_direct_def button_ok_def dialog_with_send_def
        handleConnectionDialog_eq)
    show ?thesis
      by (simp add: connectWithGroupMembers_def l p g u io_defs MAX_CONNECTIONS_PER_DAY_def
          del: process_profiles.simps)
  qed
  note t = cap_never_exceeded [of 2 ?b "[url_A, url_B, url_C]" 25 url_A url_B url_C]
  note t' = cap_never_exceeded [of 25 ?b "[url_A, url_B, url_C]" 25]
  have i: "connectWithGroupMembers_interleaved (Some still_browser)
     = Some ([Goto ''https://www.linkedin.com/groups/1/members/'',
              ClickCardConnectButton, ClickSendButton, ScrollToBottom,
              ClickCardConnectButton, ClickSendButton, ScrollToBottom,
              ClickCardConnectButton, ClickSendButton, ScrollToBottom,
              ClickCardConnectButton, ClickSendButton, ScrollToBottom],
             Inr \<lparr>connectionsAttempted = 4, processedProfiles = {}, previousHeight = 1000,
                  noNewContentCount = 3\<rparr>)"
    by (simp add: connectWithGroupMembers_interleaved_def still_browser_def still_run)
  note t'' = cap_never_exceeded [where page = "Some still_browser"]
  have j: "connectionsAttempted
     \<lparr>connectionsAttempted = 4, processedProfiles = {}, previousHeight = 1000,
      noNewContentCount = 3\<rparr> \<le> 25"
    by (rule t'' [THEN conjunct2, THEN conjunct2, THEN conjunct2, THEN conjunct2,
          THEN conjunct2, THEN conjunct2, rule_format, OF i])
  have k: "process_profiles 2 ?b [url_A, url_B, url_C] 0
     = ([Goto url_A, ClickConnectButton, ClickSendButton,
         Goto url_B, ClickConnectButton, ClickSendButton], Inr 2)"
    using t c by (simp del: process_profiles.simps)
  have m: "process_profiles 25 ?b [url_A, url_B, url_C] 25 = ([], Inr 25)"
    using t' by (simp del: process_profiles.simps)
  show ?thesis using c r i j k m by (simp del: process_profiles.simps)
qed

section \<open>The end of the listing\<close>

text \<open>
  C4. The collection loop ends. In the interleaved loop, where the scroll logic is live, a
  run in which the page height is the same for three consecutive scroll cycles returns (by
  the break, or earlier by the cap or an exception outside the \<open>try\<close>); the third
  unchanged height in a row leaves the loop with exactly the state the card pass of that
  cycle produced; a changed height resets the no-growth counter to zero and an unchanged one
  adds one to it. In the collect-then-connect variant the scroll logic is commented out and
  the loop body ends in \<open>break\<close>: the collector is one pass over the cards read.
\<close>

theorem listing_loop_terminates:
  "(i \<le> k \<and> (k = i \<longrightarrow> previousHeight st = h) \<and>
    (i < k \<longrightarrow> sc_scrollHeight (cycles (k - 1)) = Inr h) \<and>
    (\<forall>j<3. sc_scrollHeight (cycles (k + j)) = Inr h) \<longrightarrow>
      (\<exists>r. scroll_loop cycles i tr st = Some r)) \<and>
   (connectionsAttempted st < MAX_CONNECTIONS_PER_DAY \<and> noNewContentCount st = 2 \<and>
    sc_memberCards (cycles i) = Inr cards \<and> process_cards st cards = (t1, Inr st1) \<and>
    sc_scrollTo (cycles i) = Inr () \<and> sc_scrollHeight (cycles i) = Inr (previousHeight st) \<longrightarrow>
      scroll_loop cycles i tr st =
        Some (tr @ t1 @ [ScrollToBottom], Inr (st1\<lparr>noNewContentCount := 3\<rparr>))) \<and>
   (currentHeight \<noteq> previousHeight st \<longrightarrow>
      check_height st currentHeight =
        (False, st\<lparr>noNewContentCount := 0, previousHeight := currentHeight\<rparr>)) \<and>
   (currentHeight = previousHeight st \<longrightarrow>
      fst (check_height st currentHeight) = (3 \<le> noNewContentCount st + 1) \<and>
      noNewContentCount (snd (check_height st currentHeight)) = noNewContentCount st + 1) \<and>
   (memberCards b = Inr cs \<longrightarrow> collect_profileUrls b = foldl collect_card [] cs)"
proof (intro conjI impI)
  assume "i \<le> k \<and> (k = i \<longrightarrow> previousHeight st = h) \<and>
    (i < k \<longrightarrow> sc_scrollHeight (cycles (k - 1)) = Inr h) \<and>
    (\<forall>j<3. sc_scrollHeight (cycles (k + j)) = Inr h)"
  then show "\<exists>r. scroll_loop cycles i tr st = Some r"
    using scroll_loop_terminates [of i k st h cycles tr] by blast
next
  assume a: "connectionsAttempted st < MAX_CONNECTIONS_PER_DAY \<and> noNewContentCount st = 2 \<and>
    sc_memberCards (cycles i) = Inr cards \<and> process_cards st cards = (t1, Inr st1) \<and>
    sc_scrollTo (cycles i) = Inr () \<and> sc_scrollHeight (cycles i) = Inr (previousHeight st)"
  then have cap: "connectionsAttempted st \<le> MAX_CONNECTIONS_PER_DAY" by simp
  from process_cards_frame [OF cap, of cards] a have
    f: "previousHeight st1 = previousHeight st" "noNewContentCount st1 = 2" by auto
  have "scroll_cycle_body (cycles i) st
          = (t1 @ [ScrollToBottom], Inr (True, st1\<lparr>noNewContentCount := 3\<rparr>))"
    using a f by (simp add: scroll_cycle_body_def io_defs check_height_def)
  with a show "scroll_loop cycles i tr st =
        Some (tr @ t1 @ [ScrollToBottom], Inr (st1\<lparr>noNewContentCount := 3\<rparr>))"
    by (simp add: scroll_loop_break)
next
  assume "currentHeight \<noteq> previousHeight st"
  then show "check_height st currentHeight =
        (False, st\<lparr>noNewContentCount := 0, previousHeight := currentHeight\<rparr>)"
    by (simp add: check_height_def)
next
  assume "currentHeight = previousHeight st"
  then show "fst (check_height st currentHeight) = (3 \<le> noNewContentCount st + 1)"
    by (simp add: check_height_def)
next
  assume "currentHeight = previousHeight st"
  then show "noNewContentCount (snd (check_height st currentHeight)) = noNewContentCount st + 1"
    by (simp add: check_height_def)
next
  assume "memberCards b = Inr cs"
  then show "collect_profileUrls b = foldl collect_card [] cs"
    by (simp add: collect_profileUrls_def)
qed

theorem listing_loop_terminates_witness:
  "sc_scrollHeight (still_listing 0) = Inr 1000 \<and>
   sc_scrollHeight (still_listing 1) = Inr 1000 \<and>
   sc_scrollHeight (still_listing 2) = Inr 1000 \<and>
   sc_scrollHeight (still_listing 3) = Inr 1000 \<and>
   (\<exists>r. scroll_loop still_listing 0 [] initial_campaign = Some r) \<and>
   scroll_loop still_listing 0 [] initial_campaign =
     Some ([ClickCardConnectButton, ClickSendButton, ScrollToBottom,
            ClickCardConnectButton, ClickSendButton, ScrollToBottom,
            ClickCardConnectButton, ClickSendButton, ScrollToBottom,
            ClickCardConnectButton, ClickSendButton, ScrollToBottom],
           Inr \<lparr>connectionsAttempted = 4, processedProfiles = {}, previousHeight = 1000,
                noNewContentCount = 3\<rparr>) \<and>
   check_height initial_campaign 1000 =
     (False, initial_campaign\<lparr>noNewContentCount := 0, previousHeight := 1000\<rparr>)"
proof -
  have h: "sc_scrollHeight (still_listing j) = Inr 1000" for j
    by (simp add: still_listing_def cycle_of_def)
  have n: "(1000::int) \<noteq> previousHeight initial_campaign"
    by (simp add: initial_campaign_def)
  note t = listing_loop_terminates [of 0 1 initial_campaign 1000 still_listing "[]" _ _ _ 1000]
  have e: "\<exists>r. scroll_loop still_listing 0 [] initial_campaign = Some r"
    using t h by simp
  have r: "check_height initial_campaign 1000 =
     (False, initial_campaign\<lparr>noNewContentCount := 0, previousHeight := 1000\<rparr>)"
    using t n by simp
  show ?thesis using e r h still_run [of "[]"] by simp
qed

section \<open>The candidate set\<close>

lemma collect_profileUrls_first_seen:
  "memberCards b = Inr cards \<Longrightarrow>
     collect_profileUrls b = first_seen (List.map_filter candidate_of cards)"
  by (simp add: collect_profileUrls_def foldl_collect_card)

text \<open>
  C3. The list the collector produces holds each profile URL at most once, in the order of
  first appearance among the admissible cards, and every URL in it was read from a card
  whose degree text marks neither a first-degree connection nor the user's own profile. The
  listing \<open>[A(2nd), B(1st), C(2nd), A(2nd)]\<close> yields exactly \<open>[A, C]\<close>.
\<close>

theorem candidate_set_deduplicated:
  "distinct (collect_profileUrls b) \<and>
   (memberCards b = Inr cards \<longrightarrow>
      collect_profileUrls b = first_seen (List.map_filter candidate_of cards) \<and>
      (\<forall>u \<in> set (collect_profileUrls b).
         \<exists>c \<in> set cards. profileUrl c = Some u \<and> \<not> disqualifying_degree (degreeText c))) \<and>
   collect_profileUrls (browser_with listing_ABCA pages) = [url_A, url_C]"
proof (intro conjI impI)
  show "distinct (collect_profileUrls b)"
    by (cases "memberCards b") (simp_all add: collect_profileUrls_def foldl_collect_card)
next
  assume m: "memberCards b = Inr cards"
  note e = collect_profileUrls_first_seen [OF m]
  show "collect_profileUrls b = first_seen (List.map_filter candidate_of cards)" by (rule e)
  show "\<forall>u \<in> set (collect_profileUrls b).
         \<exists>c \<in> set cards. profileUrl c = Some u \<and> \<not> disqualifying_degree (degreeText c)"
    using candidate_of_in [of _ cards] by (simp add: e)
next
  show "collect_profileUrls (browser_with listing_ABCA pages) = [url_A, url_C]"
    by (simp add: collect_profileUrls_def browser_with_def listing_ABCA_def collect_card_def
      url_A_def url_B_def url_C_def)
qed

theorem candidate_set_deduplicated_witness:
  "memberCards (browser_with listing_ABCA pages_all_direct) = Inr listing_ABCA \<and>
   List.map_filter candidate_of listing_ABCA = [url_A, url_C, url_A] \<and>
   collect_profileUrls (browser_with listing_ABCA pages_all_direct) = [url_A, url_C] \<and>
   distinct (collect_profileUrls (browser_with listing_ABCA pages_all_direct))"
proof -
  let ?b = "browser_with listing_ABCA pages_all_direct"
  have m: "memberCards ?b = Inr listing_ABCA" by (simp add: browser_with_def)
  have f: "List.map_filter candidate_of listing_ABCA = [url_A, url_C, url_A]"
    by (simp add: listing_ABCA_def candidate_of_def disqualifying_degree_def
        List.map_filter_def url_A_def url_B_def url_C_def)
  note t = candidate_set_deduplicated [of ?b listing_ABCA pages_all_direct]
  have d: "distinct (collect_profileUrls ?b)" using t by blast
  have c: "collect_profileUrls ?b = [url_A, url_C]" using t by blast
  show ?thesis using m f d c by simp
qed



section \<open>Member cards with a Connect button of their own\<close>

lemma process_card_direct:
  assumes "mc_directConnectButton c = Inr (Some dcb)"
  shows "process_card st c =
     (case mc_degreeText c of
        Inl e \<Rightarrow> ([], Inr st)
      | Inr hint \<Rightarrow>
          if disqualifying_degree hint then ([], Inr st)
          else (case ccb_click dcb of
                  Inl e \<Rightarrow> ([ClickCardConnectButton], Inr st)
                | Inr _ \<Rightarrow>
                    ([ClickCardConnectButton] @ fst (handleConnectionDialog (ccb_dialog dcb)),
                     Inr (st\<lparr>connectionsAttempted := connectionsAttempted st + 1\<rparr>))))"
proof -
  obtain t sent where d: "handleConnectionDialog (ccb_dialog dcb) = (t, Inr sent)"
    using handleConnectionDialog_returns by blast
  have q: "(case dt of None \<Rightarrow> False
            | Some d \<Rightarrow> d \<noteq> [] \<and> (str_includes d ''1st'' \<or> str_includes d ''You''))
           = disqualifying_degree dt" for dt
    by (cases dt) (auto simp: disqualifying_degree_def)
  show ?thesis using assms d
    by (simp add: process_card_def card_body_def io_defs q split: sum.splits)
qed

text \<open>
  C10. In the interleaved variant, a member card that exposes a direct Connect button is
  handled without \<open>processedProfiles\<close>: the set is not changed (nor is the scroll
  progress), the outcome does not depend on what the set holds, and the same card is clicked
  again on a later pass, even when its profile URL is already in the set.
\<close>

theorem direct_card_ignores_processedProfiles:
  assumes "mc_directConnectButton c = Inr (Some dcb)"
  shows "(\<forall>t st'. process_card st c = (t, Inr st') \<longrightarrow>
            processedProfiles st' = processedProfiles st \<and>
            previousHeight st' = previousHeight st \<and>
            noNewContentCount st' = noNewContentCount st) \<and>
         (\<forall>t st' P. process_card st c = (t, Inr st') \<longrightarrow>
            process_card (st\<lparr>processedProfiles := P\<rparr>) c
              = (t, Inr (st'\<lparr>processedProfiles := P\<rparr>))) \<and>
         (\<forall>hint. mc_degreeText c = Inr hint \<and> \<not> disqualifying_degree hint \<and>
            ccb_click dcb = Inr () \<and> connectionsAttempted st + 1 < MAX_CONNECTIONS_PER_DAY \<longrightarrow>
            process_cards st [c, c] =
              ([ClickCardConnectButton] @ fst (handleConnectionDialog (ccb_dialog dcb)) @
               [ClickCardConnectButton] @ fst (handleConnectionDialog (ccb_dialog dcb)),
               Inr (st\<lparr>connectionsAttempted := connectionsAttempted st + 2\<rparr>)))"
proof (intro conjI)
  show "\<forall>t st'. process_card st c = (t, Inr st') \<longrightarrow>
            processedProfiles st' = processedProfiles st \<and>
            previousHeight st' = previousHeight st \<and>
            noNewContentCount st' = noNewContentCount st"
    unfolding process_card_direct [OF assms]
    by (auto split: sum.splits if_splits)
next
  show "\<forall>t st' P. process_card st c = (t, Inr st') \<longrightarrow>
            process_card (st\<lparr>processedProfiles := P\<rparr>) c
              = (t, Inr (st'\<lparr>processedProfiles := P\<rparr>))"
    unfolding process_card_direct [OF assms]
    by (auto split: sum.splits if_splits)
next
  show "\<forall>hint. mc_degreeText c = Inr hint \<and> \<not> disqualifying_degree hint \<and>
            ccb_click dcb = Inr () \<and> connectionsAttempted st + 1 < MAX_CONNECTIONS_PER_DAY \<longrightarrow>
            process_cards st [c, c] =
              ([ClickCardConnectButton] @ fst (handleConnectionDialog (ccb_dialog dcb)) @
               [ClickCardConnectButton] @ fst (handleConnectionDialog (ccb_dialog dcb)),
               Inr (st\<lparr>connectionsAttempted := connectionsAttempted st + 2\<rparr>))"
  proof (intro allI impI)
  fix hint
  assume a: "mc_degreeText c = Inr hint \<and> \<not> disqualifying_degree hint \<and>
            ccb_click dcb = Inr () \<and> connectionsAttempted st + 1 < MAX_CONNECTIONS_PER_DAY"
  let ?st1 = "st\<lparr>connectionsAttempted := Suc (connectionsAttempted st)\<rparr>"
  have 1: "process_card st c =
             ([ClickCardConnectButton] @ fst (handleConnectionDialog (ccb_dialog dcb)), Inr ?st1)"
    using a by (simp add: process_card_direct [OF assms])
  have 2: "process_card ?st1 c =
             ([ClickCardConnectButton] @ fst (handleConnectionDialog (ccb_dialog dcb)),
              Inr (st\<lparr>connectionsAttempted := Suc (Suc (connectionsAttempted st))\<rparr>))"
    using a by (simp add: process_card_direct [OF assms])
  show "process_cards st [c, c] =
              ([ClickCardConnectButton] @ fst (handleConnectionDialog (ccb_dialog dcb)) @
               [ClickCardConnectButton] @ fst (handleConnectionDialog (ccb_dialog dcb)),
               Inr (st\<lparr>connectionsAttempted := connectionsAttempted st + 2\<rparr>))"
    using a by (simp add: 1 2 returns_def)
  qed
qed

theorem direct_card_ignores_processedProfiles_witness:
  "mc_directConnectButton (card_with_connect dialog_with_send)
     = Inr (Some \<lparr>ccb_click = Inr (), ccb_dialog = dialog_with_send\<rparr>) \<and>
   mc_profileUrl (card_with_connect dialog_with_send) = Inr url_A \<and>
   process_cards (initial_campaign\<lparr>processedProfiles := {url_A}\<rparr>)
       [card_with_connect dialog_with_send, card_with_connect dialog_with_send]
     = ([ClickCardConnectButton, ClickSendButton, ClickCardConnectButton, ClickSendButton],
        Inr (initial_campaign\<lparr>processedProfiles := {url_A}, connectionsAttempted := 2\<rparr>))"
proof -
  let ?c = "card_with_connect dialog_with_send"
  let ?st = "initial_campaign\<lparr>processedProfiles := {url_A}\<rparr>"
  have b: "mc_directConnectButton ?c = Inr (Some \<lparr>ccb_click = Inr (), ccb_dialog = dialog_with_send\<rparr>)"
    by (simp add: card_with_connect_def)
  have u: "mc_profileUrl ?c = Inr url_A" by (simp add: card_with_connect_def)
  have d: "mc_degreeText ?c = Inr (Some ''2nd'')" "\<not> disqualifying_degree (Some ''2nd'')"
    by (simp_all add: card_with_connect_def disqualifying_degree_def)
  have n: "connectionsAttempted ?st + 1 < MAX_CONNECTIONS_PER_DAY"
    by (simp add: initial_campaign_def MAX_CONNECTIONS_PER_DAY_def)
  have h: "handleConnectionDialog dialog_with_send = ([ClickSendButton], Inr True)"
    by (simp add: handleConnectionDialog_eq dialog_with_send_def)
  note t = direct_card_ignores_processedProfiles [OF b, of ?st]
  have r: "process_cards ?st [?c, ?c]
     = ([ClickCardConnectButton, ClickSendButton, ClickCardConnectButton, ClickSendButton],
        Inr (initial_campaign\<lparr>processedProfiles := {url_A}, connectionsAttempted := 2\<rparr>))"
    using t d n h by (simp add: initial_campaign_def del: process_cards.simps)
  show ?thesis using b u r by simp
qed

section \<open>What the success counter counts\<close>

text \<open>
  In the collect-then-connect variant the counter grows by one exactly when
  \<open>tryConnectWithProfile\<close> returned \<open>true\<close>.
\<close>

lemma orchestrator_counts_connected_only:
  assumes "n < cap"
  shows "snd (process_profiles cap b [url] n) =
           Inr (if snd (tryConnectWithProfile (Some b) url) = Inr True then n + 1 else n)"
  using process_profiles_step [OF assms, of b url "[]"]
  by (simp add: returns_def del: process_profiles.simps(2))

text \<open>
  C2. The counter is meant to grow exactly when the attempt ended in a confirmed dialog. The
  collect-then-connect variant does so: NoAffordanceFound for \<open>A\<close> followed by Connected
  for \<open>B\<close> gives a count of 1. The direct-button path of the interleaved variant drops
  the value of \<open>handleConnectionDialog\<close> and increments all the same: on a card whose
  Connect button opens a dialog without a send button, nothing is sent and the counter
  becomes 1.
\<close>

theorem card_connect_counts_unsent:
  "attempt_result (snd (tryConnect_body (pages_A_bare url_A) url_A)) = NoAffordanceFound \<and>
   attempt_result (snd (tryConnect_body (pages_A_bare url_B) url_B)) = Connected \<and>
   process_profiles 25 (browser_with [] pages_A_bare) [url_A, url_B] 0
     = ([Goto url_A, Goto url_B, ClickConnectButton, ClickSendButton], Inr 1) \<and>
   handleConnectionDialog dialog_without_send = ([], Inr False) \<and>
   process_card initial_campaign (card_with_connect dialog_without_send)
     = ([ClickCardConnectButton], Inr (initial_campaign\<lparr>connectionsAttempted := 1\<rparr>))"
  by (simp add: tryConnectWithProfile_def tryConnect_body_def browser_with_def pages_A_bare_def
      page_bare_def page_direct_def button_ok_def dialog_with_send_def url_A_def url_B_def
      process_card_def card_body_def card_with_connect_def handleConnectionDialog_eq
      dialog_without_send_def io_defs initial_campaign_def)

end
